theory Spec2Isabelle
  imports Complex_Main "HOL-Library.Word" "HOL-Library.Sublist"
begin

section \<open>Panics and errors\<close>

text \<open>
  A Go panic aborts the call; an \<open>error\<close> is an ordinary return value. Both are values
  here. \<open>NilDereference\<close> is the run-time panic of a field access or a dereference
  through a nil pointer, \<open>PanicError\<close> is \<open>panic(errors.New(msg))\<close>, and
  \<open>RegexpPanic\<close> is the panic of \<open>regexp.MustCompile\<close> on an expression that does
  not compile. An \<open>error\<close> is modelled by its message; \<open>None\<close> is the nil error.
\<close>

datatype panic = NilDereference | PanicError string | RegexpPanic string

type_synonym error = "string option"

section \<open>The application state machine (app_state_machine.go)\<close>

text \<open>
  The seven state names are the constants \<open>APP_STATE_*\<close> of the source file.
\<close>

definition APP_STATE_NORMAL :: string where "APP_STATE_NORMAL = ''normal''"
definition APP_STATE_CREATING :: string where "APP_STATE_CREATING = ''creating''"
definition APP_STATE_DELETING :: string where "APP_STATE_DELETING = ''deleting''"
definition APP_STATE_UPDATING :: string where "APP_STATE_UPDATING = ''updating''"
definition APP_STATE_CANCEL_UPDATE :: string where "APP_STATE_CANCEL_UPDATE = ''cancel_update''"
definition APP_STATE_SCALE_UP :: string where "APP_STATE_SCALE_UP = ''scale_up''"
definition APP_STATE_SCALE_DOWN :: string where "APP_STATE_SCALE_DOWN = ''scale_down''"

lemmas APP_STATE_defs =
  APP_STATE_NORMAL_def APP_STATE_CREATING_def APP_STATE_DELETING_def APP_STATE_UPDATING_def
  APP_STATE_CANCEL_UPDATE_def APP_STATE_SCALE_UP_def APP_STATE_SCALE_DOWN_def

text \<open>
  Modelled from the spec: the implementations of the interface \<open>State\<close> (one per state
  name, built by \<open>NewStateNormal\<close>, \<open>NewStateCreating\<close>, ...) are not among the sources;
  only the interface declaration is. A state is represented by its kind, \<open>Name\<close> gives
  the name the spec's table uses for it, and \<open>CanTransitTo\<close> is the table of legal
  transitions of section 4.4 of the spec, row by row (\<open>deleting\<close> has no row: it is
  terminal). \<open>OnEnter\<close>, \<open>OnExit\<close> and \<open>Step\<close> act on the application's slots and are
  not modelled.
\<close>

datatype State =
  StateNormal | StateCreating | StateDeleting | StateUpdating | StateCancelUpdate
  | StateScaleUp | StateScaleDown

fun Name :: "State \<Rightarrow> string" where
  "Name StateNormal = APP_STATE_NORMAL"
| "Name StateCreating = APP_STATE_CREATING"
| "Name StateDeleting = APP_STATE_DELETING"
| "Name StateUpdating = APP_STATE_UPDATING"
| "Name StateCancelUpdate = APP_STATE_CANCEL_UPDATE"
| "Name StateScaleUp = APP_STATE_SCALE_UP"
| "Name StateScaleDown = APP_STATE_SCALE_DOWN"

fun CanTransitTo :: "State \<Rightarrow> string \<Rightarrow> bool" where
  "CanTransitTo StateCreating t = (t = APP_STATE_NORMAL \<or> t = APP_STATE_DELETING)"
| "CanTransitTo StateNormal t =
     (t = APP_STATE_SCALE_UP \<or> t = APP_STATE_SCALE_DOWN \<or> t = APP_STATE_UPDATING
      \<or> t = APP_STATE_DELETING)"
| "CanTransitTo StateScaleUp t = (t = APP_STATE_NORMAL \<or> t = APP_STATE_DELETING)"
| "CanTransitTo StateScaleDown t = (t = APP_STATE_NORMAL \<or> t = APP_STATE_DELETING)"
| "CanTransitTo StateUpdating t =
     (t = APP_STATE_NORMAL \<or> t = APP_STATE_CANCEL_UPDATE \<or> t = APP_STATE_DELETING)"
| "CanTransitTo StateCancelUpdate t = (t = APP_STATE_NORMAL \<or> t = APP_STATE_DELETING)"
| "CanTransitTo StateDeleting t = False"

text \<open>
  \<open>StateMachine\<close>: the field \<open>state\<close> is an interface value, nil until \<open>Start\<close> has
  run. The back-reference \<open>App\<close> and the mutex are left out: the model is sequential
  and no modelled function reads the application.
\<close>

record StateMachine =
  state :: "State option"

text \<open>\<open>StateFactory\<close>: the \<open>switch\<close> of the source, case by case, with its \<open>default\<close>.\<close>

definition StateFactory :: "string \<Rightarrow> panic + State" where
  "StateFactory stateName =
     (if stateName = APP_STATE_NORMAL then Inr StateNormal
      else if stateName = APP_STATE_CREATING then Inr StateCreating
      else if stateName = APP_STATE_DELETING then Inr StateDeleting
      else if stateName = APP_STATE_SCALE_UP then Inr StateScaleUp
      else if stateName = APP_STATE_SCALE_DOWN then Inr StateScaleDown
      else Inl (PanicError ''unrecognized state''))"

text \<open>
  \<open>TransitTo\<close> returns the error (nil on success) and the machine, or panics. The call
  \<open>machine.state.CanTransitTo\<close> on a nil interface value is a nil dereference. The
  assignment to \<open>machine.state\<close> happens only once \<open>StateFactory\<close> has returned, so a
  panic of the factory leaves no new state behind.
\<close>

definition TransitTo :: "StateMachine \<Rightarrow> string \<Rightarrow> panic + (error \<times> StateMachine)" where
  "TransitTo machine targetStateString =
     (case state machine of
        None \<Rightarrow> Inl NilDereference
      | Some s \<Rightarrow>
          if CanTransitTo s targetStateString then
            (case StateFactory targetStateString of
               Inl p \<Rightarrow> Inl p
             | Inr s' \<Rightarrow> Inr (None, machine\<lparr>state := Some s'\<rparr>))
          else
            Inr (Some (''cann't transit from state: '' @ Name s @ '' to state: ''
                       @ targetStateString), machine))"

definition ReadableState :: "StateMachine \<Rightarrow> panic + string" where
  "ReadableState machine =
     (case state machine of None \<Rightarrow> Inl NilDereference | Some s \<Rightarrow> Inr (Name s))"

section \<open>Offers (package mesosproto)\<close>

text \<open>
  Modelled from the spec: the protobuf message types \<open>mesos.Offer\<close>, \<open>mesos.AgentID\<close>,
  \<open>mesos.Attribute\<close> and \<open>mesos.Value_Text\<close> are declared in a package that is not among
  the sources. The spec (section 3) gives an offer an agent identity, a hostname and a
  list of typed attributes; constraints.go reads exactly these through the getters
  \<open>GetHostname\<close>, \<open>GetAgentId\<close>, \<open>GetName\<close>, \<open>GetType\<close>, \<open>GetText\<close> and the fields
  \<open>Attributes\<close> and \<open>Value\<close>. Every message field is a pointer and may be nil
  (\<open>None\<close>); a getter is safe on a nil receiver and on an unset field and returns the zero
  value there (the empty string, the first enumeration value, nil), whereas a direct field
  access or a dereference through nil panics.
\<close>

datatype Value_Type = Value_SCALAR | Value_RANGES | Value_SET | Value_TEXT

record AgentID =
  AgentID_Value :: "string option"

record Value_Text =
  Text_Value :: "string option"

record Attribute =
  Attribute_Name :: "string option"
  Attribute_Type :: "Value_Type option"
  Attribute_Text :: "Value_Text option"

record Offer =
  Hostname :: "string option"
  AgentId :: "AgentID option"
  Attributes :: "Attribute option list"

definition GetHostname :: "Offer option \<Rightarrow> string" where
  "GetHostname m =
     (case m of None \<Rightarrow> [] | Some x \<Rightarrow> (case Hostname x of None \<Rightarrow> [] | Some h \<Rightarrow> h))"

definition GetAgentId :: "Offer option \<Rightarrow> AgentID option" where
  "GetAgentId m = (case m of None \<Rightarrow> None | Some x \<Rightarrow> AgentId x)"

definition GetName :: "Attribute option \<Rightarrow> string" where
  "GetName m =
     (case m of None \<Rightarrow> [] | Some x \<Rightarrow> (case Attribute_Name x of None \<Rightarrow> [] | Some n \<Rightarrow> n))"

definition GetType :: "Attribute option \<Rightarrow> Value_Type" where
  "GetType m =
     (case m of None \<Rightarrow> Value_SCALAR
      | Some x \<Rightarrow> (case Attribute_Type x of None \<Rightarrow> Value_SCALAR | Some t \<Rightarrow> t))"

definition GetText :: "Attribute option \<Rightarrow> Value_Text option" where
  "GetText m = (case m of None \<Rightarrow> None | Some x \<Rightarrow> Attribute_Text x)"

text \<open>
  \<open>*p.Value\<close> for a message pointer \<open>p\<close>: the field access panics when \<open>p\<close> is nil, the
  dereference when the field is.
\<close>

definition deref_AgentID_Value :: "AgentID option \<Rightarrow> panic + string" where
  "deref_AgentID_Value p =
     (case p of None \<Rightarrow> Inl NilDereference
      | Some a \<Rightarrow> (case AgentID_Value a of None \<Rightarrow> Inl NilDereference | Some v \<Rightarrow> Inr v))"

definition deref_Text_Value :: "Value_Text option \<Rightarrow> panic + string" where
  "deref_Text_Value p =
     (case p of None \<Rightarrow> Inl NilDereference
      | Some a \<Rightarrow> (case Text_Value a of None \<Rightarrow> Inl NilDereference | Some v \<Rightarrow> Inr v))"

section \<open>Library functions used by the constraint engine\<close>

text \<open>
  \<open>strings.Contains s substr\<close> and \<open>strings.HasSuffix s suffix\<close> of the Go library, on
  byte strings.
\<close>

fun strings_Contains :: "string \<Rightarrow> string \<Rightarrow> bool" where
  "strings_Contains [] substr = (substr = [])"
| "strings_Contains (c # s) substr = (prefix substr (c # s) \<or> strings_Contains s substr)"

definition strings_HasSuffix :: "string \<Rightarrow> string \<Rightarrow> bool" where
  "strings_HasSuffix s suf = suffix suf s"

text \<open>
  The Go \<open>regexp\<close> library is a parameter of the model. A compiled expression is
  represented by its \<open>MatchString\<close> predicate, and the library by its function
  \<open>Compile\<close>, which gives \<open>None\<close> for an expression that does not compile.
  \<open>regexp.MustCompile\<close> panics exactly there.
\<close>

type_synonym Regexp = "string \<Rightarrow> bool"

type_synonym regexp_Compile = "string \<Rightarrow> Regexp option"

definition MustCompile :: "regexp_Compile \<Rightarrow> string \<Rightarrow> panic + Regexp" where
  "MustCompile rc str = (case rc str of None \<Rightarrow> Inl (RegexpPanic str) | Some r \<Rightarrow> Inr r)"

text \<open>
  A stand-in for the library, to run examples: it rejects the expression \<open>(\<close>, which Go
  rejects too (missing closing parenthesis), and reads every other expression as a
  literal, which matches the strings that contain it. The examples below use it on
  \<open>(\<close> and on expressions without metacharacters only.
\<close>

definition literal_Compile :: regexp_Compile where
  "literal_Compile str = (if str = ''('' then None else Some (\<lambda>s. strings_Contains s str))"

text \<open>
  Modelled from the spec: \<open>utils.SliceContains\<close> is not among the sources; it is taken
  to be membership of a string in a slice, which is how \<open>Valid\<close> uses it against the
  restriction table of section 4.1.
\<close>

definition SliceContains :: "string list \<Rightarrow> string \<Rightarrow> bool" where
  "SliceContains xs x = (x \<in> set xs)"

section \<open>The constraint engine (constraints.go)\<close>

definition uniqWhat :: "string list" where
  "uniqWhat = [''hostname'']"

definition likeWhat :: "string list" where
  "likeWhat = [''hostname'', ''agentid'']"

text \<open>
  Modelled from the spec: the type \<open>Slot\<close> is not among the sources, and no function of
  constraints.go reads a slot. The one thing the spec says the engine needs of it is the
  side-channel query \<open>slot.App.HostnamesInUse()\<close> (section 4.1): the hostnames on which
  the currently-running tasks of the slot's application have been placed.
\<close>

record Slot =
  App_HostnamesInUse :: "string list"

record ConstraintContextHolder =
  Slot :: "Slot option"
  Offer :: "Offer option"

text \<open>
  The statements. \<open>OrStatement\<close>, \<open>UniqueStatment\<close>, \<open>LikeStatement\<close> and
  \<open>ContainsStatement\<close> embed a context holder of their own, as the structs of the source
  do; operands are taken to be non-nil.
\<close>

datatype Statement =
    NotStatement Statement
  | AndStatement Statement Statement
  | OrStatement ConstraintContextHolder Statement Statement
  | UniqueStatment ConstraintContextHolder string
  | LikeStatement ConstraintContextHolder string string
  | ContainsStatement ConstraintContextHolder string string

text \<open>A context holder with both pointers nil: the zero value of the struct.\<close>

definition no_context :: ConstraintContextHolder where
  "no_context = \<lparr>Slot = None, Offer = None\<rparr>"

text \<open>
  \<open>SetContext\<close> copies the two pointers into every leaf. \<open>OrStatement.SetContext\<close>
  passes the context on and leaves the holder embedded in the \<open>OrStatement\<close> alone.
\<close>

fun SetContext :: "ConstraintContextHolder \<Rightarrow> Statement \<Rightarrow> Statement" where
  "SetContext ctx (NotStatement op1) = NotStatement (SetContext ctx op1)"
| "SetContext ctx (AndStatement op1 op2) = AndStatement (SetContext ctx op1) (SetContext ctx op2)"
| "SetContext ctx (OrStatement h op1 op2) = OrStatement h (SetContext ctx op1) (SetContext ctx op2)"
| "SetContext ctx (UniqueStatment h what) =
     UniqueStatment (h\<lparr>Offer := Offer ctx, Slot := Slot ctx\<rparr>) what"
| "SetContext ctx (LikeStatement h what regex) =
     LikeStatement (h\<lparr>Offer := Offer ctx, Slot := Slot ctx\<rparr>) what regex"
| "SetContext ctx (ContainsStatement h what regex) =
     ContainsStatement (h\<lparr>Offer := Offer ctx, Slot := Slot ctx\<rparr>) what regex"

text \<open>\<open>Valid\<close>: the first error of the operands, or the check of a leaf against its table.\<close>

fun Valid :: "Statement \<Rightarrow> error" where
  "Valid (NotStatement op1) = (case Valid op1 of Some err \<Rightarrow> Some err | None \<Rightarrow> None)"
| "Valid (AndStatement op1 op2) =
     (case Valid op1 of Some err \<Rightarrow> Some err
      | None \<Rightarrow> (case Valid op2 of Some err1 \<Rightarrow> Some err1 | None \<Rightarrow> None))"
| "Valid (OrStatement h op1 op2) =
     (case Valid op1 of Some err \<Rightarrow> Some err
      | None \<Rightarrow> (case Valid op2 of Some err1 \<Rightarrow> Some err1 | None \<Rightarrow> None))"
| "Valid (UniqueStatment h what) =
     (if SliceContains uniqWhat what then None
      else Some ''only hostname is supported for the time being'')"
| "Valid (LikeStatement h what regex) =
     (if SliceContains likeWhat what then None
      else Some ''only hostname, agentid are supported'')"
| "Valid (ContainsStatement h what regex) =
     (if SliceContains likeWhat what then None
      else Some ''only hostname, ip, agentid are supported'')"

text \<open>
  The loop over the offer's attributes that \<open>LikeStatement.Eval\<close> and
  \<open>ContainsStatement.Eval\<close> both end with: the first attribute of the wanted name and of
  type text decides, by the test \<open>matches\<close> on its text; with no such attribute the
  result is false.
\<close>

fun attributes_match :: "(string \<Rightarrow> bool) \<Rightarrow> string \<Rightarrow> Attribute option list \<Rightarrow> panic + bool" where
  "attributes_match matches what [] = Inr False"
| "attributes_match matches what (attr # rest) =
     (if GetName attr = what \<and> GetType attr = Value_TEXT then
        (case deref_Text_Value (GetText attr) of Inl p \<Rightarrow> Inl p | Inr v \<Rightarrow> Inr (matches v))
      else attributes_match matches what rest)"

text \<open>
  What a leaf does once it has its test: \<open>hostname\<close> and \<open>agentid\<close> first, then the
  user-defined attributes. \<open>cs.Offer.Attributes\<close> is a field access and panics on a nil
  offer; \<open>GetHostname\<close> and \<open>GetAgentId\<close> do not.
\<close>

definition match_what :: "(string \<Rightarrow> bool) \<Rightarrow> ConstraintContextHolder \<Rightarrow> string \<Rightarrow> panic + bool" where
  "match_what matches h what =
     (if what = ''hostname'' then Inr (matches (GetHostname (Offer h)))
      else if what = ''agentid'' then
        (case deref_AgentID_Value (GetAgentId (Offer h)) of
           Inl p \<Rightarrow> Inl p
         | Inr v \<Rightarrow> Inr (matches v))
      else (case Offer h of
              None \<Rightarrow> Inl NilDereference
            | Some off \<Rightarrow> attributes_match matches what (Attributes off)))"

text \<open>
  \<open>Eval\<close>. In \<open>AndStatement\<close> and \<open>OrStatement\<close> the source writes \<open>Op2.Eval()\<close> to the
  left of the operator, so \<open>Op2\<close> runs first and \<open>Op1\<close> only if \<open>Op2\<close> has not decided.
  \<open>UniqueStatment.Eval\<close> tests for \<open>hostname\<close>, does nothing in that branch (its
  body is commented out) and returns false.
\<close>

fun Eval :: "regexp_Compile \<Rightarrow> Statement \<Rightarrow> panic + bool" where
  "Eval rc (NotStatement op1) =
     (case Eval rc op1 of Inl p \<Rightarrow> Inl p | Inr v \<Rightarrow> Inr (\<not> v))"
| "Eval rc (AndStatement op1 op2) =
     (case Eval rc op2 of Inl p \<Rightarrow> Inl p
      | Inr v2 \<Rightarrow> if v2 then Eval rc op1 else Inr False)"
| "Eval rc (OrStatement h op1 op2) =
     (case Eval rc op2 of Inl p \<Rightarrow> Inl p
      | Inr v2 \<Rightarrow> if v2 then Inr True else Eval rc op1)"
| "Eval rc (UniqueStatment h what) =
     (if what = ''hostname'' then Inr False else Inr False)"
| "Eval rc (LikeStatement h what regex) =
     (case MustCompile rc regex of
        Inl p \<Rightarrow> Inl p
      | Inr r \<Rightarrow> match_what r h what)"
| "Eval rc (ContainsStatement h what regex) =
     match_what (\<lambda>s. strings_Contains s regex) h what"

text \<open>
  The spec's reading of composition (section 4.1: "order is left-to-right"), for
  comparison with \<open>Eval\<close>: the same leaves, but \<open>Op1\<close> runs first and \<open>Op2\<close> only if
  \<open>Op1\<close> has not decided.
\<close>

fun Eval_left_to_right :: "regexp_Compile \<Rightarrow> Statement \<Rightarrow> panic + bool" where
  "Eval_left_to_right rc (NotStatement op1) =
     (case Eval_left_to_right rc op1 of Inl p \<Rightarrow> Inl p | Inr v \<Rightarrow> Inr (\<not> v))"
| "Eval_left_to_right rc (AndStatement op1 op2) =
     (case Eval_left_to_right rc op1 of Inl p \<Rightarrow> Inl p
      | Inr v1 \<Rightarrow> if v1 then Eval_left_to_right rc op2 else Inr False)"
| "Eval_left_to_right rc (OrStatement h op1 op2) =
     (case Eval_left_to_right rc op1 of Inl p \<Rightarrow> Inl p
      | Inr v1 \<Rightarrow> if v1 then Inr True else Eval_left_to_right rc op2)"
| "Eval_left_to_right rc (UniqueStatment h what) = Eval rc (UniqueStatment h what)"
| "Eval_left_to_right rc (LikeStatement h what regex) = Eval rc (LikeStatement h what regex)"
| "Eval_left_to_right rc (ContainsStatement h what regex) =
     Eval rc (ContainsStatement h what regex)"

text \<open>
  The spec's meaning of \<open>Unique(hostname)\<close> (section 4.1), for comparison with
  \<open>UniqueStatment.Eval\<close>: true iff no currently-running task of the slot's application
  has been placed on the offer's hostname.
\<close>

definition unique_hostname_spec :: "ConstraintContextHolder \<Rightarrow> bool" where
  "unique_hostname_spec ctx =
     (case Slot ctx of
        None \<Rightarrow> True
      | Some slot \<Rightarrow> GetHostname (Offer ctx) \<notin> set (App_HostnamesInUse slot))"

text \<open>Every expression of a \<open>LikeStatement\<close> in the tree compiles.\<close>

fun regexes_compile :: "regexp_Compile \<Rightarrow> Statement \<Rightarrow> bool" where
  "regexes_compile rc (NotStatement op1) = regexes_compile rc op1"
| "regexes_compile rc (AndStatement op1 op2) = (regexes_compile rc op1 \<and> regexes_compile rc op2)"
| "regexes_compile rc (OrStatement h op1 op2) = (regexes_compile rc op1 \<and> regexes_compile rc op2)"
| "regexes_compile rc (UniqueStatment h what) = True"
| "regexes_compile rc (LikeStatement h what regex) = (rc regex \<noteq> None)"
| "regexes_compile rc (ContainsStatement h what regex) = True"

text \<open>
  An offer and a context for examples: host \<open>h1\<close>, agent \<open>agent-1\<close>, one text
  attribute \<open>rack\<close> with value \<open>r1\<close>; the slot's application has no task running
  anywhere.
\<close>

definition attribute_rack :: Attribute where
  "attribute_rack =
     \<lparr>Attribute_Name = Some ''rack'', Attribute_Type = Some Value_TEXT,
      Attribute_Text = Some \<lparr>Text_Value = Some ''r1''\<rparr>\<rparr>"

definition offer_h1 :: Offer where
  "offer_h1 =
     \<lparr>Hostname = Some ''h1'', AgentId = Some \<lparr>AgentID_Value = Some ''agent-1''\<rparr>,
      Attributes = [Some attribute_rack]\<rparr>"

definition context_h1 :: ConstraintContextHolder where
  "context_h1 = \<lparr>Slot = Some \<lparr>App_HostnamesInUse = []\<rparr>, Offer = Some offer_h1\<rparr>"

section \<open>The upstream registry (upstream.go)\<close>

text \<open>
  The registry holds pointers: \<open>[]*Target\<close> in an upstream, \<open>*Target\<close> in a session,
  and \<open>upsertTarget\<close> stores the pointer it is given and later writes through the
  stored one. A pointer to a target is an address, and the part of the Go heap that
  holds the targets is a function from addresses to \<open>Target\<close> values. \<open>Weight\<close> is a
  \<open>float64\<close> that the registry only copies; it is a real number here.
\<close>

type_synonym addr = nat

record Target =
  AppID :: string
  AppAlias :: string
  VersionID :: string
  AppVersion :: string
  TaskID :: string
  TaskIP :: string
  TaskPort :: "32 word"
  Weight :: real

text \<open>
  Modelled from the spec: the type \<open>Sessions\<close> and its methods are not among the
  sources. Section 4.6 of the spec has sessions as a mapping from the remote address to
  a pair of a target and the time it was last seen, on which a background sweep removes
  the entries idle beyond the session TTL. A session is that pair, the target as a
  pointer and the time as a count of clock ticks. \<open>get\<close> gives the target bound to a
  remote address, or nil. \<open>update\<close> binds the remote address to the target and stamps
  the session with the current time \<open>now\<close>: on a remote address that is bound already,
  this is the refresh of the TTL. The sweep and \<open>stop\<close> are left out; \<open>remove\<close>, of
  which the spec says nothing, is a parameter of \<open>removeTarget\<close>.
\<close>

record Session =
  session_target :: addr
  session_lastSeen :: nat

type_synonym Sessions = "string \<rightharpoonup> Session"

definition newSessions :: Sessions where
  "newSessions = Map.empty"

definition Sessions_get :: "Sessions \<Rightarrow> string \<Rightarrow> addr option" where
  "Sessions_get ss remoteIP =
     (case ss remoteIP of None \<Rightarrow> None | Some s \<Rightarrow> Some (session_target s))"

definition Sessions_update :: "Sessions \<Rightarrow> string \<Rightarrow> addr \<Rightarrow> nat \<Rightarrow> Sessions" where
  "Sessions_update ss remoteIP t now =
     ss(remoteIP \<mapsto> \<lparr>session_target = t, session_lastSeen = now\<rparr>)"

text \<open>
  \<open>Upstream\<close>. The field \<open>balancer\<close> is an interface value whose implementation
  (\<open>WeightBalancer\<close>) is not among the sources and chooses at random; the functions that
  call \<open>balancer.Next\<close> take the choice function as a parameter instead.
\<close>

record Upstream =
  Upstream_AppID :: string
  Upstream_AppAlias :: string
  Targets :: "addr list"
  sessions :: Sessions

type_synonym Balancer = "(addr \<Rightarrow> Target) \<Rightarrow> addr list \<Rightarrow> addr option"

text \<open>\<open>Upstreams\<close>: the slice of upstreams, together with the heap of targets.\<close>

record Upstreams =
  mem :: "addr \<Rightarrow> Target"
  Upstreams :: "Upstream list"

definition newUpstream :: "string \<Rightarrow> string \<Rightarrow> Upstream" where
  "newUpstream appID appAlias =
     \<lparr>Upstream_AppID = appID, Upstream_AppAlias = appAlias, Targets = [],
      sessions = newSessions\<rparr>"

text \<open>
  The three search loops return the index and the element of the first match, or
  \<open>None\<close> for the pair \<open>(-1, nil)\<close> of the source. The index counts from \<open>i\<close>.
\<close>

fun getUpstreamByID_from :: "nat \<Rightarrow> Upstream list \<Rightarrow> string \<Rightarrow> (nat \<times> Upstream) option" where
  "getUpstreamByID_from i [] appID = None"
| "getUpstreamByID_from i (v # rest) appID =
     (if Upstream_AppID v = appID then Some (i, v) else getUpstreamByID_from (Suc i) rest appID)"

definition getUpstreamByID :: "Upstreams \<Rightarrow> string \<Rightarrow> (nat \<times> Upstream) option" where
  "getUpstreamByID us appID = getUpstreamByID_from 0 (Upstreams us) appID"

fun getUpstreamByAlias_from :: "nat \<Rightarrow> Upstream list \<Rightarrow> string \<Rightarrow> (nat \<times> Upstream) option" where
  "getUpstreamByAlias_from i [] alias = None"
| "getUpstreamByAlias_from i (v # rest) alias =
     (if Upstream_AppAlias v = alias then Some (i, v)
      else getUpstreamByAlias_from (Suc i) rest alias)"

definition getUpstreamByAlias :: "Upstreams \<Rightarrow> string \<Rightarrow> (nat \<times> Upstream) option" where
  "getUpstreamByAlias us alias = getUpstreamByAlias_from 0 (Upstreams us) alias"

fun getTarget_from :: "(addr \<Rightarrow> Target) \<Rightarrow> nat \<Rightarrow> addr list \<Rightarrow> string \<Rightarrow> (nat \<times> addr) option" where
  "getTarget_from m i [] taskID = None"
| "getTarget_from m i (v # rest) taskID =
     (if TaskID (m v) = taskID then Some (i, v) else getTarget_from m (Suc i) rest taskID)"

definition Upstream_getTarget :: "(addr \<Rightarrow> Target) \<Rightarrow> Upstream \<Rightarrow> string \<Rightarrow> (nat \<times> addr) option" where
  "Upstream_getTarget m u taskID = getTarget_from m 0 (Targets u) taskID"

text \<open>
  \<open>upsertTarget\<close> takes a non-nil pointer. It returns the error and the registry. The
  update in place writes five fields of the stored target through its pointer.
\<close>

definition upsertTarget :: "Upstreams \<Rightarrow> addr \<Rightarrow> error \<times> Upstreams" where
  "upsertTarget us target =
     (let appID = AppID (mem us target);
          appAlias = AppAlias (mem us target);
          taskID = TaskID (mem us target)
      in case getUpstreamByID us appID of
           None \<Rightarrow>
             (case getUpstreamByAlias us appAlias of
                Some found \<Rightarrow> (Some (''alias ['' @ appAlias @ ''] conflict''), us)
              | None \<Rightarrow>
                  (None, us\<lparr>Upstreams :=
                     Upstreams us @ [(newUpstream appID appAlias)\<lparr>Targets := [target]\<rparr>]\<rparr>))
         | Some (i, u) \<Rightarrow>
             (case Upstream_getTarget (mem us) u taskID of
                None \<Rightarrow>
                  (None, us\<lparr>Upstreams :=
                     (Upstreams us)[i := u\<lparr>Targets := Targets u @ [target]\<rparr>]\<rparr>)
              | Some (j, t) \<Rightarrow>
                  (None, us\<lparr>mem := (mem us)(t := (mem us t)
                     \<lparr>VersionID := VersionID (mem us target),
                      AppVersion := AppVersion (mem us target),
                      TaskIP := TaskIP (mem us target),
                      TaskPort := TaskPort (mem us target),
                      Weight := Weight (mem us target)\<rparr>)\<rparr>)))"

definition getTarget :: "Upstreams \<Rightarrow> string \<Rightarrow> string \<Rightarrow> addr option" where
  "getTarget us appID taskID =
     (case getUpstreamByID us appID of
        None \<Rightarrow> None
      | Some (i, u) \<Rightarrow>
          (case Upstream_getTarget (mem us) u taskID of None \<Rightarrow> None | Some (j, t) \<Rightarrow> Some t))"

text \<open>
  \<open>removeTarget\<close>: \<open>append(s[:i], s[i+1:]...)\<close> is the slice without its element \<open>i\<close>.
  The method \<open>sessions.remove\<close> that it calls with the task id is the parameter
  \<open>sessions_remove\<close>, which may read the targets that the sessions point to.
\<close>

definition removeTarget ::
  "((addr \<Rightarrow> Target) \<Rightarrow> Sessions \<Rightarrow> string \<Rightarrow> Sessions) \<Rightarrow> Upstreams \<Rightarrow> addr \<Rightarrow> Upstreams" where
  "removeTarget sessions_remove us target =
     (let appID = AppID (mem us target);
          taskID = TaskID (mem us target)
      in case getUpstreamByID us appID of
           None \<Rightarrow> us
         | Some (idxu, u) \<Rightarrow>
             (case Upstream_getTarget (mem us) u taskID of
                None \<Rightarrow> us
              | Some (idxt, t) \<Rightarrow>
                  (let u' = u\<lparr>Targets := take idxt (Targets u) @ drop (Suc idxt) (Targets u),
                              sessions := sessions_remove (mem us) (sessions u) taskID\<rparr>
                   in if length (Targets u') = 0
                      then us\<lparr>Upstreams :=
                             take idxu (Upstreams us) @ drop (Suc idxu) (Upstreams us)\<rparr>
                      else us\<lparr>Upstreams := (Upstreams us)[idxu := u']\<rparr>)))"

definition nextTarget :: "Balancer \<Rightarrow> Upstreams \<Rightarrow> string \<Rightarrow> addr option" where
  "nextTarget balancer_Next us appID =
     (case getUpstreamByID us appID of
        None \<Rightarrow> None
      | Some (i, u) \<Rightarrow> balancer_Next (mem us) (Targets u))"

text \<open>
  \<open>lookup\<close> returns the target (or nil) and the registry. The deferred function runs
  on every return after it has been installed, with the final value of \<open>t\<close>: it calls
  \<open>sessions.update\<close> when \<open>t\<close> is not nil. \<open>now\<close> is the time at that moment.
\<close>

definition lookup ::
  "Balancer \<Rightarrow> nat \<Rightarrow> Upstreams \<Rightarrow> string \<Rightarrow> string \<Rightarrow> string \<Rightarrow> addr option \<times> Upstreams" where
  "lookup balancer_Next now us remoteIP appID taskID =
     (case getUpstreamByID us appID of
        None \<Rightarrow> (None, us)
      | Some (i, u) \<Rightarrow>
          (let t = (case Sessions_get (sessions u) remoteIP of
                      Some s \<Rightarrow> Some s
                    | None \<Rightarrow>
                        if taskID \<noteq> [] then getTarget us appID taskID
                        else nextTarget balancer_Next us appID)
           in (t, case t of
                    None \<Rightarrow> us
                  | Some a \<Rightarrow>
                      us\<lparr>Upstreams :=
                        (Upstreams us)
                        [i := u\<lparr>sessions := Sessions_update (sessions u) remoteIP a now\<rparr>]\<rparr>)))"

definition lookupAlias ::
  "Balancer \<Rightarrow> nat \<Rightarrow> Upstreams \<Rightarrow> string \<Rightarrow> string \<Rightarrow> addr option \<times> Upstreams" where
  "lookupAlias balancer_Next now us remoteIP appAlias =
     (case getUpstreamByAlias us appAlias of
        None \<Rightarrow> (None, us)
      | Some (i, u) \<Rightarrow> lookup balancer_Next now us remoteIP (Upstream_AppID u) [])"

text \<open>\<open>Target.valid\<close>, on a pointer that may be nil.\<close>

definition valid :: "(addr \<Rightarrow> Target) \<Rightarrow> addr option \<Rightarrow> error" where
  "valid m p =
     (case p of
        None \<Rightarrow> Some ''nil targte''
      | Some a \<Rightarrow>
          (let t = m a in
           if AppID t = [] \<or> TaskID t = [] then Some ''app_id or task_id required''
           else if TaskIP t = [] \<or> TaskPort t = 0 then Some ''task_ip or task_port required''
           else if \<not> strings_HasSuffix (TaskID t) (''-'' @ AppID t)
             then Some ''invalid task_id, must be suffixed by app_id''
           else None))"

text \<open>An empty registry over a heap, and a target value to fill heaps with in examples.\<close>

definition empty_registry :: "(addr \<Rightarrow> Target) \<Rightarrow> Upstreams" where
  "empty_registry m = \<lparr>mem = m, Upstreams = []\<rparr>"

definition mk_target :: "string \<Rightarrow> string \<Rightarrow> string \<Rightarrow> string \<Rightarrow> Target" where
  "mk_target appID appAlias taskID taskIP =
     \<lparr>AppID = appID, AppAlias = appAlias, VersionID = ''v1'', AppVersion = ''1'',
      TaskID = taskID, TaskIP = taskIP, TaskPort = 80, Weight = 1\<rparr>"

text \<open>
  A heap for examples. Address 0 holds a target of application \<open>A\<close> with alias \<open>foo\<close>,
  address 1 a target of application \<open>B\<close> that claims the same alias, address 2 a second
  target of \<open>A\<close>, address 3 new data for the task of address 0, and every other address a
  target of \<open>A\<close> whose task id \<open>x\<close> does not end with \<open>-A\<close>. \<open>registry_A\<close> is the
  registry after the target at address 0 has been inserted into an empty one.
\<close>

definition example_mem :: "addr \<Rightarrow> Target" where
  "example_mem a =
     (if a = 0 then mk_target ''A'' ''foo'' ''t1-A'' ''10.0.0.1''
      else if a = 1 then mk_target ''B'' ''foo'' ''t1-B'' ''10.0.0.2''
      else if a = 2 then mk_target ''A'' ''foo'' ''t2-A'' ''10.0.0.3''
      else if a = 3 then mk_target ''A'' ''foo'' ''t1-A'' ''10.0.0.9''
      else mk_target ''A'' ''foo'' ''x'' ''10.0.0.4'')"

definition registry_A :: Upstreams where
  "registry_A =
     \<lparr>mem = example_mem,
      Upstreams = [\<lparr>Upstream_AppID = ''A'', Upstream_AppAlias = ''foo'', Targets = [0],
                    sessions = Map.empty\<rparr>]\<rparr>"

text \<open>
  \<open>registry_S\<close>: application \<open>A\<close> with the targets at addresses 0 and 2, and a session,
  last seen at time 0, that binds the remote address \<open>1.2.3.4\<close> to the target at
  address 2. \<open>registry_stale\<close> has the same session, but the target at address 0 is
  the only target of the upstream. \<open>first_Next\<close> is a balancer for examples, which
  chooses the first target.
\<close>

definition registry_S :: Upstreams where
  "registry_S =
     \<lparr>mem = example_mem,
      Upstreams = [\<lparr>Upstream_AppID = ''A'', Upstream_AppAlias = ''foo'', Targets = [0, 2],
                    sessions = [''1.2.3.4'' \<mapsto> \<lparr>session_target = 2, session_lastSeen = 0\<rparr>]\<rparr>]\<rparr>"


definition first_Next :: Balancer where
  "first_Next m targets = (case targets of [] \<Rightarrow> None | a # rest \<Rightarrow> Some a)"

section \<open>Properties of the state machine\<close>

lemma StateFactory_known:
  "StateFactory APP_STATE_NORMAL = Inr StateNormal"
  "StateFactory APP_STATE_CREATING = Inr StateCreating"
  "StateFactory APP_STATE_DELETING = Inr StateDeleting"
  "StateFactory APP_STATE_SCALE_UP = Inr StateScaleUp"
  "StateFactory APP_STATE_SCALE_DOWN = Inr StateScaleDown"
  by (simp_all add: StateFactory_def APP_STATE_defs)

lemma StateFactory_unknown:
  "StateFactory APP_STATE_UPDATING = Inl (PanicError ''unrecognized state'')"
  "StateFactory APP_STATE_CANCEL_UPDATE = Inl (PanicError ''unrecognized state'')"
  by (simp_all add: StateFactory_def APP_STATE_defs)

lemma StateFactory_Name:
  "StateFactory t = Inr s \<Longrightarrow> Name s = t"
  by (auto simp: StateFactory_def split: if_splits)

lemma CanTransitTo_cases:
  assumes "CanTransitTo s t"
  shows "t = APP_STATE_NORMAL \<or> t = APP_STATE_DELETING \<or> t = APP_STATE_SCALE_UP
         \<or> t = APP_STATE_SCALE_DOWN \<or> t = APP_STATE_UPDATING \<or> t = APP_STATE_CANCEL_UPDATE"
  using assms by (cases s) auto

text \<open>An illegal pair gives an error and leaves the machine as it was.\<close>

lemma TransitTo_illegal:
  "state machine = Some s \<Longrightarrow> \<not> CanTransitTo s t \<Longrightarrow>
   \<exists>msg. TransitTo machine t = Inr (Some msg, machine)"
  by (simp add: TransitTo_def)

text \<open>A legal pair whose target the factory knows installs the target and returns nil.\<close>

lemma TransitTo_legal_known:
  assumes st: "state machine = Some s" and can: "CanTransitTo s t"
    and nu: "t \<noteq> APP_STATE_UPDATING" and nc: "t \<noteq> APP_STATE_CANCEL_UPDATE"
  shows "\<exists>s'. TransitTo machine t = Inr (None, machine\<lparr>state := Some s'\<rparr>) \<and> Name s' = t"
proof -
  from CanTransitTo_cases [OF can] nu nc
  consider "t = APP_STATE_NORMAL" | "t = APP_STATE_DELETING" | "t = APP_STATE_SCALE_UP"
    | "t = APP_STATE_SCALE_DOWN"
    by blast
  then obtain s' where "StateFactory t = Inr s'" and "Name s' = t"
    by cases (simp_all add: StateFactory_known)
  with st can
  have "TransitTo machine t = Inr (None, machine\<lparr>state := Some s'\<rparr>) \<and> Name s' = t"
    by (simp add: TransitTo_def)
  then show ?thesis ..
qed

text \<open>
  Whatever \<open>CanTransitTo\<close> says, no call installs \<open>updating\<close> or \<open>cancel_update\<close>: a
  successful call has a target that \<open>StateFactory\<close> knows.
\<close>

lemma TransitTo_success_target:
  assumes "TransitTo machine t = Inr (None, machine')"
  shows "t = APP_STATE_NORMAL \<or> t = APP_STATE_CREATING \<or> t = APP_STATE_DELETING
         \<or> t = APP_STATE_SCALE_UP \<or> t = APP_STATE_SCALE_DOWN"
proof -
  from assms obtain s' where "StateFactory t = Inr s'"
    by (auto simp: TransitTo_def split: option.splits if_splits sum.splits)
  then show ?thesis
    by (simp add: StateFactory_def split: if_splits)
qed

text \<open>
  C1. The claim: \<open>TransitTo\<close> installs the target and returns nil exactly for the pairs
  the table marks legal, and in particular succeeds from \<open>normal\<close> to \<open>updating\<close> and
  from \<open>updating\<close> to \<open>cancel_update\<close>. On the code both of these pairs pass
  \<open>CanTransitTo\<close> and then reach the \<open>default\<close> branch of \<open>StateFactory\<close>, which has no
  case for \<open>updating\<close> or \<open>cancel_update\<close>: the call panics with "unrecognized state".
\<close>

theorem TransitTo_updating_panics:
  "CanTransitTo StateNormal ''updating''
   \<and> TransitTo \<lparr>state = Some StateNormal\<rparr> ''updating''
       = Inl (PanicError ''unrecognized state'')
   \<and> CanTransitTo StateUpdating ''cancel_update''
   \<and> TransitTo \<lparr>state = Some StateUpdating\<rparr> ''cancel_update''
       = Inl (PanicError ''unrecognized state'')"
  by (simp add: TransitTo_def StateFactory_def APP_STATE_defs)

section \<open>Properties of the constraint engine\<close>

subsection \<open>Unique\<close>

lemma UniqueStatment_Eval_False:
  "Eval rc (SetContext ctx (UniqueStatment h what)) = Inr False"
  by simp

text \<open>
  C2. The claim: a \<open>Unique(hostname)\<close> statement evaluates to true iff no running task of
  the slot's application has been placed on the offer's hostname. The code returns false
  in every context. At the offer of host \<open>h1\<close>, for a slot whose application runs no
  task at all, the spec's condition holds and \<open>Eval\<close> gives false.
\<close>

theorem Unique_free_host_evaluates_false:
  "unique_hostname_spec context_h1
   \<and> Eval literal_Compile (SetContext context_h1 (UniqueStatment no_context ''hostname''))
       = Inr False"
  by (simp add: unique_hostname_spec_def context_h1_def)

subsection \<open>Composition\<close>

text \<open>
  C3, as stated: \<open>And\<close> and \<open>Or\<close> run \<open>Op1\<close> first. With an \<open>Op1\<close> that panics when it
  runs and an \<open>Op2\<close> that is false, a left-to-right \<open>And\<close> panics; the code returns
  false, because it runs \<open>Op2\<close> first and never reaches \<open>Op1\<close>.
\<close>

theorem And_left_to_right_counterexample:
  "Eval literal_Compile
     (SetContext context_h1
        (AndStatement (LikeStatement no_context ''hostname'' ''('')
                      (UniqueStatment no_context ''hostname''))) = Inr False
   \<and> Eval_left_to_right literal_Compile
     (SetContext context_h1
        (AndStatement (LikeStatement no_context ''hostname'' ''('')
                      (UniqueStatment no_context ''hostname''))) = Inl (RegexpPanic ''('')"
  by (simp add: MustCompile_def literal_Compile_def)

text \<open>
  C3, amended: \<open>And\<close> and \<open>Or\<close> run \<open>Op2\<close> first and \<open>Op1\<close> only when \<open>Op2\<close> has not
  decided the outcome (\<open>Op2\<close> true for \<open>And\<close>, false for \<open>Or\<close>). So with a false \<open>Op2\<close>
  an \<open>And\<close> is false whatever \<open>Op1\<close> would do, with a true \<open>Op2\<close> an \<open>Or\<close> is true
  whatever \<open>Op1\<close> would do, a panic of \<open>Op2\<close> is the panic of the composition, and
  otherwise the result is that of \<open>Op1\<close>. On operands that both return, the result is
  their conjunction or disjunction, and \<open>Not\<close> negates.
\<close>

theorem Eval_operand_order:
  assumes "Eval rc f = Inr False" and "Eval rc t = Inr True" and "Eval rc e = Inl p"
    and "Eval rc a = Inr va" and "Eval rc b = Inr vb"
  shows "Eval rc (AndStatement op1 f) = Inr False
    \<and> Eval rc (AndStatement op1 t) = Eval rc op1
    \<and> Eval rc (AndStatement op1 e) = Inl p
    \<and> Eval rc (OrStatement h op1 t) = Inr True
    \<and> Eval rc (OrStatement h op1 f) = Eval rc op1
    \<and> Eval rc (OrStatement h op1 e) = Inl p
    \<and> Eval rc (AndStatement a b) = Inr (va \<and> vb)
    \<and> Eval rc (OrStatement h a b) = Inr (va \<or> vb)
    \<and> Eval rc (NotStatement a) = Inr (\<not> va)"
  using assms by auto

theorem Eval_operand_order_witness:
  "Eval literal_Compile (UniqueStatment no_context ''hostname'') = Inr False
   \<and> Eval literal_Compile (NotStatement (UniqueStatment no_context ''hostname'')) = Inr True
   \<and> Eval literal_Compile (LikeStatement context_h1 ''hostname'' ''('') = Inl (RegexpPanic ''('')
   \<and> Eval literal_Compile (ContainsStatement context_h1 ''hostname'' ''h1'') = Inr True
   \<and> Eval literal_Compile
        (AndStatement (LikeStatement context_h1 ''hostname'' ''('')
                      (UniqueStatment no_context ''hostname'')) = Inr False
   \<and> Eval literal_Compile
        (OrStatement no_context (LikeStatement context_h1 ''hostname'' ''('')
                      (NotStatement (UniqueStatment no_context ''hostname''))) = Inr True
   \<and> Eval literal_Compile
        (AndStatement (ContainsStatement context_h1 ''hostname'' ''h1'')
                      (UniqueStatment no_context ''hostname'')) = Inr False
   \<and> Eval literal_Compile
        (OrStatement no_context (ContainsStatement context_h1 ''hostname'' ''h1'')
                      (UniqueStatment no_context ''hostname'')) = Inr True"
proof -
  have f: "Eval literal_Compile (UniqueStatment no_context ''hostname'') = Inr False"
    by simp
  have t: "Eval literal_Compile (NotStatement (UniqueStatment no_context ''hostname'')) = Inr True"
    by simp
  have e: "Eval literal_Compile (LikeStatement context_h1 ''hostname'' ''('')
           = Inl (RegexpPanic ''('')"
    by (simp add: MustCompile_def literal_Compile_def)
  have a: "Eval literal_Compile (ContainsStatement context_h1 ''hostname'' ''h1'') = Inr True"
    by (simp add: match_what_def context_h1_def offer_h1_def GetHostname_def)
  show ?thesis
    using f t e a
      Eval_operand_order [OF f t e a f,
        of "LikeStatement context_h1 ''hostname'' ''(''" no_context]
    by simp
qed

subsection \<open>Failures of evaluation\<close>

text \<open>
  A statement over \<open>agentid\<close> passes \<open>Valid\<close> and panics in \<open>Eval\<close> when the offer
  carries no agent id (or when no offer has been set).
\<close>

lemma Eval_missing_agent_panics:
  assumes "GetAgentId (Offer ctx) = None"
  shows "Valid (ContainsStatement h ''agentid'' needle) = None
    \<and> Eval rc (SetContext ctx (ContainsStatement h ''agentid'' needle)) = Inl NilDereference"
  using assms
  by (simp add: SliceContains_def likeWhat_def match_what_def deref_AgentID_Value_def)

lemma match_what_valid:
  assumes "SliceContains likeWhat what"
    and "deref_AgentID_Value (GetAgentId (Offer h)) = Inr v"
  shows "\<exists>r. match_what matches h what = Inr r"
  using assms by (auto simp: SliceContains_def likeWhat_def match_what_def)

text \<open>
  What does hold: on a statement that passes \<open>Valid\<close> and whose expressions all compile,
  in a context whose offer carries an agent id, \<open>Eval\<close> returns a boolean.
\<close>

lemma Eval_no_panic:
  assumes "Valid s = None" and "regexes_compile rc s"
    and "deref_AgentID_Value (GetAgentId (Offer ctx)) = Inr v"
  shows "\<exists>r. Eval rc (SetContext ctx s) = Inr r"
  using assms
proof (induction s)
  case (NotStatement s)
  then show ?case by (auto split: option.splits)
next
  case (AndStatement s1 s2)
  then show ?case by (auto split: option.splits)
next
  case (OrStatement h s1 s2)
  then show ?case by (auto split: option.splits)
next
  case (UniqueStatment h what)
  show ?case by auto
next
  case (LikeStatement h what regex)
  then obtain r where "rc regex = Some r" by auto
  moreover from LikeStatement have "SliceContains likeWhat what"
    by (simp split: if_splits)
  ultimately show ?case
    using LikeStatement.prems(3)
    by (simp add: MustCompile_def match_what_valid)
next
  case (ContainsStatement h what needle)
  then have "SliceContains likeWhat what"
    by (simp split: if_splits)
  then show ?case
    using ContainsStatement.prems(3)
    by (simp add: match_what_valid)
qed

text \<open>
  C4. The claim: on a statement that passed \<open>Valid\<close>, \<open>Eval\<close> never fails, an invalid
  expression having been reported before. \<open>LikeStatement.Valid\<close> looks at the attribute
  only, and \<open>LikeStatement.Eval\<close> compiles the expression with \<open>regexp.MustCompile\<close>:
  whatever the regexp library, a \<open>like hostname\<close> statement with an expression that the
  library rejects passes \<open>Valid\<close> and panics in \<open>Eval\<close>, in every context.
\<close>

theorem Eval_invalid_regex_panics:
  assumes "rc regex = None"
  shows "Valid (LikeStatement h ''hostname'' regex) = None
    \<and> Eval rc (SetContext ctx (LikeStatement h ''hostname'' regex)) = Inl (RegexpPanic regex)"
  using assms
  by (simp add: SliceContains_def likeWhat_def MustCompile_def)

theorem Eval_invalid_regex_panics_witness:
  "literal_Compile ''('' = None
   \<and> Valid (LikeStatement no_context ''hostname'' ''('') = None
   \<and> Eval literal_Compile (SetContext context_h1 (LikeStatement no_context ''hostname'' ''(''))
       = Inl (RegexpPanic ''('')"
proof -
  have h: "literal_Compile ''('' = None"
    by (simp add: literal_Compile_def)
  show ?thesis
    using h Eval_invalid_regex_panics [of literal_Compile "''(''" no_context context_h1, OF h]
    by simp
qed

subsection \<open>Validation of like and contains\<close>

text \<open>
  C5, as stated: \<open>Valid\<close> accepts a \<open>like\<close> or \<open>contains\<close> statement over the name of a
  user-defined text attribute. The offer of the example has the text attribute \<open>rack\<close>,
  and \<open>Valid\<close> returns an error for both statements over \<open>rack\<close>.
\<close>

theorem Valid_user_attribute_counterexample:
  "GetName (Some attribute_rack) = ''rack''
   \<and> GetType (Some attribute_rack) = Value_TEXT
   \<and> Attributes offer_h1 = [Some attribute_rack]
   \<and> Valid (LikeStatement context_h1 ''rack'' ''r1'') \<noteq> None
   \<and> Valid (ContainsStatement context_h1 ''rack'' ''r1'') \<noteq> None"
  by (simp add: GetName_def GetType_def attribute_rack_def offer_h1_def SliceContains_def
      likeWhat_def)

text \<open>
  C5, amended: \<open>Valid\<close> on a \<open>like\<close> or \<open>contains\<close> statement returns nil exactly when the
  attribute is \<open>hostname\<close> or \<open>agentid\<close>; every other attribute name, a user-defined one
  included, is an error.
\<close>

theorem Valid_Like_Contains_iff:
  "(Valid (LikeStatement h what regex) = None) = (what = ''hostname'' \<or> what = ''agentid'')
   \<and> (Valid (ContainsStatement h what regex) = None)
       = (what = ''hostname'' \<or> what = ''agentid'')"
  by (simp add: SliceContains_def likeWhat_def)

theorem Valid_Like_Contains_iff_witness:
  "Valid (LikeStatement no_context ''agentid'' ''a'') = None
   \<and> Valid (ContainsStatement no_context ''hostname'' ''a'') = None
   \<and> Valid (LikeStatement no_context ''rack'' ''a'') \<noteq> None"
  using Valid_Like_Contains_iff [of no_context "''agentid''" "''a''"]
    Valid_Like_Contains_iff [of no_context "''hostname''" "''a''"]
    Valid_Like_Contains_iff [of no_context "''rack''" "''a''"]
  by simp

section \<open>Properties of the upstream registry\<close>

subsection \<open>The search loops\<close>

text \<open>
  Each loop finds the first match: it fails exactly when no element matches, and what it
  returns is the element at the returned index, with no match before it.
\<close>

lemma getUpstreamByID_from_None:
  "getUpstreamByID_from i ups appID = None \<longleftrightarrow> (\<forall>u \<in> set ups. Upstream_AppID u \<noteq> appID)"
  by (induction ups arbitrary: i) auto

lemma getUpstreamByID_from_Some:
  "getUpstreamByID_from i ups appID = Some (j, u) \<Longrightarrow>
   i \<le> j \<and> j - i < length ups \<and> ups ! (j - i) = u \<and> Upstream_AppID u = appID
   \<and> (\<forall>k < j - i. Upstream_AppID (ups ! k) \<noteq> appID)"
proof (induction ups arbitrary: i)
  case Nil
  then show ?case by simp
next
  case (Cons v rest)
  show ?case
  proof (cases "Upstream_AppID v = appID")
    case True
    with Cons.prems show ?thesis by simp
  next
    case False
    with Cons.prems have rec: "getUpstreamByID_from (Suc i) rest appID = Some (j, u)"
      by simp
    from Cons.IH [OF rec]
    have ih: "Suc i \<le> j" "j - Suc i < length rest" "rest ! (j - Suc i) = u"
      "Upstream_AppID u = appID" "\<forall>k < j - Suc i. Upstream_AppID (rest ! k) \<noteq> appID"
      by simp_all
    from ih(1) have eq: "j - i = Suc (j - Suc i)" by arith
    have "\<forall>k < j - i. Upstream_AppID ((v # rest) ! k) \<noteq> appID"
    proof (intro allI impI)
      fix k assume "k < j - i"
      then show "Upstream_AppID ((v # rest) ! k) \<noteq> appID"
        using False ih(5) eq by (cases k) auto
    qed
    with ih eq show ?thesis by auto
  qed
qed

lemma getUpstreamByID_from_update:
  "getUpstreamByID_from i ups appID = Some (j, u) \<Longrightarrow> Upstream_AppID u' = appID \<Longrightarrow>
   getUpstreamByID_from i (ups[j - i := u']) appID = Some (j, u')"
proof (induction ups arbitrary: i)
  case Nil
  then show ?case by simp
next
  case (Cons v rest)
  show ?case
  proof (cases "Upstream_AppID v = appID")
    case True
    with Cons.prems show ?thesis by simp
  next
    case False
    with Cons.prems have rec: "getUpstreamByID_from (Suc i) rest appID = Some (j, u)"
      by simp
    from getUpstreamByID_from_Some [OF rec] have "Suc i \<le> j" by simp
    then have eq: "j - i = Suc (j - Suc i)" by arith
    from Cons.IH [OF rec Cons.prems(2)] False eq show ?thesis by simp
  qed
qed

lemma getUpstreamByID_None:
  "getUpstreamByID us appID = None \<longleftrightarrow> (\<forall>u \<in> set (Upstreams us). Upstream_AppID u \<noteq> appID)"
  by (simp add: getUpstreamByID_def getUpstreamByID_from_None)

lemma getUpstreamByID_Some:
  assumes "getUpstreamByID us appID = Some (i, u)"
  shows "i < length (Upstreams us)" and "Upstreams us ! i = u" and "Upstream_AppID u = appID"
    and "\<forall>k < i. Upstream_AppID (Upstreams us ! k) \<noteq> appID"
  using getUpstreamByID_from_Some [of 0 "Upstreams us" appID i u] assms
  by (simp_all add: getUpstreamByID_def)

lemma getUpstreamByID_update:
  assumes "getUpstreamByID us appID = Some (i, u)" and "Upstream_AppID u' = appID"
  shows "getUpstreamByID (us\<lparr>Upstreams := (Upstreams us)[i := u']\<rparr>) appID = Some (i, u')"
  using getUpstreamByID_from_update [of 0 "Upstreams us" appID i u u'] assms
  by (simp add: getUpstreamByID_def)

lemma getUpstreamByAlias_from_None:
  "getUpstreamByAlias_from i ups alias = None \<longleftrightarrow> (\<forall>u \<in> set ups. Upstream_AppAlias u \<noteq> alias)"
  by (induction ups arbitrary: i) auto

lemma getUpstreamByAlias_None:
  "getUpstreamByAlias us alias = None \<longleftrightarrow> (\<forall>u \<in> set (Upstreams us). Upstream_AppAlias u \<noteq> alias)"
  by (simp add: getUpstreamByAlias_def getUpstreamByAlias_from_None)

lemma getTarget_from_None:
  "getTarget_from m i xs taskID = None \<longleftrightarrow> (\<forall>a \<in> set xs. TaskID (m a) \<noteq> taskID)"
  by (induction xs arbitrary: i) auto

lemma getTarget_from_Some:
  "getTarget_from m i xs taskID = Some (j, a) \<Longrightarrow>
   i \<le> j \<and> j - i < length xs \<and> xs ! (j - i) = a \<and> TaskID (m a) = taskID
   \<and> (\<forall>k < j - i. TaskID (m (xs ! k)) \<noteq> taskID)"
proof (induction xs arbitrary: i)
  case Nil
  then show ?case by simp
next
  case (Cons v rest)
  show ?case
  proof (cases "TaskID (m v) = taskID")
    case True
    with Cons.prems show ?thesis by simp
  next
    case False
    with Cons.prems have rec: "getTarget_from m (Suc i) rest taskID = Some (j, a)"
      by simp
    from Cons.IH [OF rec]
    have ih: "Suc i \<le> j" "j - Suc i < length rest" "rest ! (j - Suc i) = a"
      "TaskID (m a) = taskID" "\<forall>k < j - Suc i. TaskID (m (rest ! k)) \<noteq> taskID"
      by simp_all
    from ih(1) have eq: "j - i = Suc (j - Suc i)" by arith
    have "\<forall>k < j - i. TaskID (m ((v # rest) ! k)) \<noteq> taskID"
    proof (intro allI impI)
      fix k assume "k < j - i"
      then show "TaskID (m ((v # rest) ! k)) \<noteq> taskID"
        using False ih(5) eq by (cases k) auto
    qed
    with ih eq show ?thesis by auto
  qed
qed

lemma Upstream_getTarget_None:
  "Upstream_getTarget m u taskID = None \<longleftrightarrow> (\<forall>a \<in> set (Targets u). TaskID (m a) \<noteq> taskID)"
  by (simp add: Upstream_getTarget_def getTarget_from_None)

lemma Upstream_getTarget_Some:
  assumes "Upstream_getTarget m u taskID = Some (j, a)"
  shows "j < length (Targets u)" and "Targets u ! j = a" and "TaskID (m a) = taskID"
    and "a \<in> set (Targets u)" and "\<forall>k < j. TaskID (m (Targets u ! k)) \<noteq> taskID"
proof -
  from getTarget_from_Some [of m 0 "Targets u" taskID j a] assms
  have *: "j < length (Targets u)" "Targets u ! j = a" "TaskID (m a) = taskID"
    "\<forall>k < j. TaskID (m (Targets u ! k)) \<noteq> taskID"
    by (simp_all add: Upstream_getTarget_def)
  then show "j < length (Targets u)" "Targets u ! j = a" "TaskID (m a) = taskID"
    "\<forall>k < j. TaskID (m (Targets u ! k)) \<noteq> taskID"
    by simp_all
  from *(1,2) show "a \<in> set (Targets u)"
    using nth_mem by blast
qed

subsection \<open>upsertTarget\<close>

text \<open>
  C6. For a target whose \<open>AppID\<close> no upstream has: if some upstream holds the target's
  alias, \<open>upsertTarget\<close> returns an error and the registry is unchanged; otherwise the
  registry gains, at its end, a new upstream of the target's \<open>AppID\<close> and alias that
  contains exactly the target (and has no session). For a target whose \<open>AppID\<close> is
  registered, with \<open>u\<close> the upstream found for it: if no target of \<open>u\<close> has the task
  id, the target is appended to \<open>u\<close>; if one has, the first such target is updated in
  place, that is, the version id, application version, address, port and weight
  stored at its address are overwritten and nothing else changes.
\<close>

theorem upsertTarget_cases:
  "((\<forall>u \<in> set (Upstreams us). Upstream_AppID u \<noteq> AppID (mem us target))
      \<and> (\<exists>u \<in> set (Upstreams us). Upstream_AppAlias u = AppAlias (mem us target))
     \<longrightarrow> (\<exists>msg. upsertTarget us target = (Some msg, us)))
   \<and> ((\<forall>u \<in> set (Upstreams us). Upstream_AppID u \<noteq> AppID (mem us target))
      \<and> (\<forall>u \<in> set (Upstreams us). Upstream_AppAlias u \<noteq> AppAlias (mem us target))
     \<longrightarrow> upsertTarget us target =
           (None, us\<lparr>Upstreams := Upstreams us @
              [\<lparr>Upstream_AppID = AppID (mem us target),
                Upstream_AppAlias = AppAlias (mem us target),
                Targets = [target], sessions = Map.empty\<rparr>]\<rparr>))
   \<and> (\<forall>i u. getUpstreamByID us (AppID (mem us target)) = Some (i, u)
        \<and> (\<forall>a \<in> set (Targets u). TaskID (mem us a) \<noteq> TaskID (mem us target))
     \<longrightarrow> upsertTarget us target =
           (None, us\<lparr>Upstreams := (Upstreams us)[i := u\<lparr>Targets := Targets u @ [target]\<rparr>]\<rparr>))
   \<and> (\<forall>i u j a. getUpstreamByID us (AppID (mem us target)) = Some (i, u)
        \<and> Upstream_getTarget (mem us) u (TaskID (mem us target)) = Some (j, a)
     \<longrightarrow> upsertTarget us target =
           (None, us\<lparr>mem := (mem us)(a := (mem us a)
              \<lparr>VersionID := VersionID (mem us target),
               AppVersion := AppVersion (mem us target),
               TaskIP := TaskIP (mem us target),
               TaskPort := TaskPort (mem us target),
               Weight := Weight (mem us target)\<rparr>)\<rparr>))"
proof (intro conjI allI impI)
  assume h: "(\<forall>u \<in> set (Upstreams us). Upstream_AppID u \<noteq> AppID (mem us target))
      \<and> (\<exists>u \<in> set (Upstreams us). Upstream_AppAlias u = AppAlias (mem us target))"
  then have "getUpstreamByID us (AppID (mem us target)) = None"
    by (simp add: getUpstreamByID_None)
  moreover from h have "getUpstreamByAlias us (AppAlias (mem us target)) \<noteq> None"
    by (simp add: getUpstreamByAlias_None)
  ultimately show "\<exists>msg. upsertTarget us target = (Some msg, us)"
    by (auto simp: upsertTarget_def)
next
  assume h: "(\<forall>u \<in> set (Upstreams us). Upstream_AppID u \<noteq> AppID (mem us target))
      \<and> (\<forall>u \<in> set (Upstreams us). Upstream_AppAlias u \<noteq> AppAlias (mem us target))"
  then have "getUpstreamByID us (AppID (mem us target)) = None"
    by (simp add: getUpstreamByID_None)
  moreover from h have "getUpstreamByAlias us (AppAlias (mem us target)) = None"
    by (simp add: getUpstreamByAlias_None)
  ultimately show "upsertTarget us target =
           (None, us\<lparr>Upstreams := Upstreams us @
              [\<lparr>Upstream_AppID = AppID (mem us target),
                Upstream_AppAlias = AppAlias (mem us target),
                Targets = [target], sessions = Map.empty\<rparr>]\<rparr>)"
    by (simp add: upsertTarget_def newUpstream_def newSessions_def)
next
  fix i u
  assume h: "getUpstreamByID us (AppID (mem us target)) = Some (i, u)
        \<and> (\<forall>a \<in> set (Targets u). TaskID (mem us a) \<noteq> TaskID (mem us target))"
  then have "Upstream_getTarget (mem us) u (TaskID (mem us target)) = None"
    by (simp add: Upstream_getTarget_None)
  with h show "upsertTarget us target =
           (None, us\<lparr>Upstreams := (Upstreams us)[i := u\<lparr>Targets := Targets u @ [target]\<rparr>]\<rparr>)"
    by (simp add: upsertTarget_def)
next
  fix i u j a
  assume "getUpstreamByID us (AppID (mem us target)) = Some (i, u)
        \<and> Upstream_getTarget (mem us) u (TaskID (mem us target)) = Some (j, a)"
  then show "upsertTarget us target =
           (None, us\<lparr>mem := (mem us)(a := (mem us a)
              \<lparr>VersionID := VersionID (mem us target),
               AppVersion := AppVersion (mem us target),
               TaskIP := TaskIP (mem us target),
               TaskPort := TaskPort (mem us target),
               Weight := Weight (mem us target)\<rparr>)\<rparr>)"
    by (simp add: upsertTarget_def)
qed


theorem upsertTarget_cases_witness:
  "(\<exists>msg. upsertTarget registry_A 1 = (Some msg, registry_A))
   \<and> upsertTarget (empty_registry example_mem) 0 = (None, registry_A)
   \<and> upsertTarget registry_A 2 =
       (None, registry_A\<lparr>Upstreams :=
          [\<lparr>Upstream_AppID = ''A'', Upstream_AppAlias = ''foo'', Targets = [0, 2],
            sessions = Map.empty\<rparr>]\<rparr>)
   \<and> upsertTarget registry_A 3 =
       (None, registry_A\<lparr>mem := example_mem(0 := (example_mem 0)\<lparr>TaskIP := ''10.0.0.9''\<rparr>)\<rparr>)"
proof -
  have a: "\<exists>msg. upsertTarget registry_A 1 = (Some msg, registry_A)"
    using upsertTarget_cases [of registry_A 1]
    by (simp add: registry_A_def example_mem_def mk_target_def)
  have b: "upsertTarget (empty_registry example_mem) 0 = (None, registry_A)"
    using upsertTarget_cases [of "empty_registry example_mem" 0]
    by (simp add: registry_A_def empty_registry_def example_mem_def mk_target_def)
  have c: "upsertTarget registry_A 2 =
       (None, registry_A\<lparr>Upstreams :=
          [\<lparr>Upstream_AppID = ''A'', Upstream_AppAlias = ''foo'', Targets = [0, 2],
            sessions = Map.empty\<rparr>]\<rparr>)"
    using upsertTarget_cases [of registry_A 2]
    by (simp add: registry_A_def example_mem_def mk_target_def getUpstreamByID_def)
  have d: "upsertTarget registry_A 3 =
       (None, registry_A\<lparr>mem := example_mem(0 := (example_mem 0)\<lparr>TaskIP := ''10.0.0.9''\<rparr>)\<rparr>)"
    using upsertTarget_cases [of registry_A 3]
    by (simp add: registry_A_def example_mem_def mk_target_def getUpstreamByID_def
        Upstream_getTarget_def)
  from a b c d show ?thesis by blast
qed

subsection \<open>The format of task ids\<close>

text \<open>
  C7, as stated: a target that \<open>upsertTarget\<close> has inserted has a task id that ends
  with \<open>-\<close> and its \<open>AppID\<close>. \<open>upsertTarget\<close> does not look at the format: it inserts
  the target of application \<open>A\<close> with task id \<open>x\<close> into the empty registry and returns
  nil.
\<close>

theorem upsertTarget_unchecked_counterexample:
  "upsertTarget (empty_registry example_mem) 4 =
     (None, \<lparr>mem = example_mem,
             Upstreams = [\<lparr>Upstream_AppID = ''A'', Upstream_AppAlias = ''foo'', Targets = [4],
                           sessions = Map.empty\<rparr>]\<rparr>)
   \<and> AppID (example_mem 4) = ''A''
   \<and> TaskID (example_mem 4) = ''x''
   \<and> \<not> strings_HasSuffix (TaskID (example_mem 4)) (''-'' @ AppID (example_mem 4))"
  by (simp add: upsertTarget_def empty_registry_def example_mem_def mk_target_def
      getUpstreamByID_def getUpstreamByAlias_def newUpstream_def newSessions_def
      strings_HasSuffix_def suffix_to_prefix)

text \<open>
  C7, amended: the format is what \<open>Target.valid\<close> checks. A target on which \<open>valid\<close>
  returns nil has a task id that ends with \<open>-\<close> and its \<open>AppID\<close> (and its \<open>AppID\<close>, task
  id and address are not empty and its port is not 0).
\<close>

theorem valid_task_id_suffix:
  assumes "valid m (Some a) = None"
  shows "(\<exists>x. TaskID (m a) = x @ ''-'' @ AppID (m a))
    \<and> AppID (m a) \<noteq> [] \<and> TaskID (m a) \<noteq> [] \<and> TaskIP (m a) \<noteq> [] \<and> TaskPort (m a) \<noteq> 0"
  using assms
  by (auto simp: valid_def Let_def strings_HasSuffix_def suffix_def split: if_splits)

theorem valid_task_id_suffix_witness:
  "valid example_mem (Some 0) = None
   \<and> (\<exists>x. TaskID (example_mem 0) = x @ ''-'' @ AppID (example_mem 0))
   \<and> valid example_mem (Some 4) \<noteq> None"
proof -
  have h: "valid example_mem (Some 0) = None"
    by (simp add: valid_def example_mem_def mk_target_def strings_HasSuffix_def
        suffix_to_prefix)
  have n: "valid example_mem (Some 4) \<noteq> None"
    by (simp add: valid_def example_mem_def mk_target_def strings_HasSuffix_def
        suffix_to_prefix)
  from valid_task_id_suffix [OF h] h n show ?thesis by blast
qed

subsection \<open>lookup\<close>




text \<open>
  C10. Every call of \<open>lookup\<close> that returns a target, by whichever of the three ways,
  leaves a registry that differs from the one before in the session of \<open>remoteIP\<close>
  only, in the upstream of \<open>appID\<close>: there \<open>remoteIP\<close> is bound to exactly the target
  returned, and the session is stamped with the time of the call. So a new session is
  bound, and a session that existed, whose target was returned, is refreshed.
\<close>

theorem lookup_binds_session:
  assumes "lookup bal now us remoteIP appID taskID = (Some a, us')"
  shows "\<exists>i u. getUpstreamByID us appID = Some (i, u)
           \<and> us' = us\<lparr>Upstreams := (Upstreams us)
                     [i := u\<lparr>sessions := (sessions u)
                        (remoteIP \<mapsto> \<lparr>session_target = a, session_lastSeen = now\<rparr>)\<rparr>]\<rparr>
           \<and> getUpstreamByID us' appID
               = Some (i, u\<lparr>sessions := (sessions u)
                        (remoteIP \<mapsto> \<lparr>session_target = a, session_lastSeen = now\<rparr>)\<rparr>)
           \<and> sessions (Upstreams us' ! i) remoteIP
               = Some \<lparr>session_target = a, session_lastSeen = now\<rparr>
           \<and> Sessions_get (sessions (Upstreams us' ! i)) remoteIP = Some a"
proof (cases "getUpstreamByID us appID")
  case None
  with assms show ?thesis by (simp add: lookup_def Let_def)
next
  case (Some iu)
  obtain i u where iu: "iu = (i, u)" by (cases iu)
  with Some have u: "getUpstreamByID us appID = Some (i, u)" by simp
  let ?u' = "u\<lparr>sessions := (sessions u)
               (remoteIP \<mapsto> \<lparr>session_target = a, session_lastSeen = now\<rparr>)\<rparr>"
  from assms u have us': "us' = us\<lparr>Upstreams := (Upstreams us)[i := ?u']\<rparr>"
    by (auto simp: lookup_def Let_def Sessions_update_def split: option.splits)
  from getUpstreamByID_Some(3) [OF u] have "Upstream_AppID ?u' = appID" by simp
  from getUpstreamByID_update [OF u this] us'
  have found: "getUpstreamByID us' appID = Some (i, ?u')" by simp
  from getUpstreamByID_Some(2) [OF found]
  have bound: "sessions (Upstreams us' ! i) remoteIP
               = Some \<lparr>session_target = a, session_lastSeen = now\<rparr>"
    by simp
  then have "Sessions_get (sessions (Upstreams us' ! i)) remoteIP = Some a"
    by (simp add: Sessions_get_def)
  with u us' found bound show ?thesis by blast
qed

theorem lookup_binds_session_witness:
  "sessions (Upstreams registry_S ! 0) ''1.2.3.4''
     = Some \<lparr>session_target = 2, session_lastSeen = 0\<rparr>
   \<and> fst (lookup first_Next 7 registry_S ''1.2.3.4'' ''A'' []) = Some 2
   \<and> sessions (Upstreams (snd (lookup first_Next 7 registry_S ''1.2.3.4'' ''A'' [])) ! 0)
        ''1.2.3.4'' = Some \<lparr>session_target = 2, session_lastSeen = 7\<rparr>
   \<and> fst (lookup first_Next 7 registry_S ''5.6.7.8'' ''A'' ''t2-A'') = Some 2
   \<and> sessions (Upstreams (snd (lookup first_Next 7 registry_S ''5.6.7.8'' ''A'' ''t2-A'')) ! 0)
        ''5.6.7.8'' = Some \<lparr>session_target = 2, session_lastSeen = 7\<rparr>
   \<and> fst (lookup first_Next 7 registry_S ''5.6.7.8'' ''A'' []) = Some 0
   \<and> sessions (Upstreams (snd (lookup first_Next 7 registry_S ''5.6.7.8'' ''A'' [])) ! 0)
        ''5.6.7.8'' = Some \<lparr>session_target = 0, session_lastSeen = 7\<rparr>"
proof -
  let ?u = "\<lparr>Upstream_AppID = ''A'', Upstream_AppAlias = ''foo'', Targets = [0, 2],
             sessions = [''1.2.3.4'' \<mapsto> \<lparr>session_target = 2, session_lastSeen = 0\<rparr>]\<rparr>"
  have u: "getUpstreamByID registry_S ''A'' = Some (0, ?u)"
    by (simp add: getUpstreamByID_def registry_S_def)
  have old: "sessions (Upstreams registry_S ! 0) ''1.2.3.4''
             = Some \<lparr>session_target = 2, session_lastSeen = 0\<rparr>"
    by (simp add: registry_S_def)
  have s: "fst (lookup first_Next 7 registry_S ''1.2.3.4'' ''A'' []) = Some 2"
    by (simp add: lookup_def Let_def u Sessions_get_def)
  have t: "fst (lookup first_Next 7 registry_S ''5.6.7.8'' ''A'' ''t2-A'') = Some 2"
    by (simp add: lookup_def Let_def getUpstreamByID_def Sessions_get_def getTarget_def
        Upstream_getTarget_def registry_S_def example_mem_def mk_target_def)
  have b: "fst (lookup first_Next 7 registry_S ''5.6.7.8'' ''A'' []) = Some 0"
    by (simp add: lookup_def Let_def u Sessions_get_def nextTarget_def first_Next_def)
  have s': "lookup first_Next 7 registry_S ''1.2.3.4'' ''A'' []
            = (Some 2, snd (lookup first_Next 7 registry_S ''1.2.3.4'' ''A'' []))"
    using s by (simp add: prod_eq_iff)
  have t': "lookup first_Next 7 registry_S ''5.6.7.8'' ''A'' ''t2-A''
            = (Some 2, snd (lookup first_Next 7 registry_S ''5.6.7.8'' ''A'' ''t2-A''))"
    using t by (simp add: prod_eq_iff)
  have b': "lookup first_Next 7 registry_S ''5.6.7.8'' ''A'' []
            = (Some 0, snd (lookup first_Next 7 registry_S ''5.6.7.8'' ''A'' []))"
    using b by (simp add: prod_eq_iff)
  from lookup_binds_session [OF s'] u
  have c1: "sessions (Upstreams (snd (lookup first_Next 7 registry_S ''1.2.3.4'' ''A'' [])) ! 0)
        ''1.2.3.4'' = Some \<lparr>session_target = 2, session_lastSeen = 7\<rparr>"
    by auto
  from lookup_binds_session [OF t'] u
  have c2: "sessions
        (Upstreams (snd (lookup first_Next 7 registry_S ''5.6.7.8'' ''A'' ''t2-A'')) ! 0)
        ''5.6.7.8'' = Some \<lparr>session_target = 2, session_lastSeen = 7\<rparr>"
    by auto
  from lookup_binds_session [OF b'] u
  have c3: "sessions (Upstreams (snd (lookup first_Next 7 registry_S ''5.6.7.8'' ''A'' [])) ! 0)
        ''5.6.7.8'' = Some \<lparr>session_target = 0, session_lastSeen = 7\<rparr>"
    by auto
  from old s c1 t c2 b c3 show ?thesis by blast
qed

subsection \<open>Finding what was upserted\<close>

lemma getUpstreamByID_from_append:
  "getUpstreamByID_from i (xs @ ys) appID =
     (case getUpstreamByID_from i xs appID of
        Some r \<Rightarrow> Some r
      | None \<Rightarrow> getUpstreamByID_from (i + length xs) ys appID)"
  by (induction xs arbitrary: i) (auto split: option.splits)

lemma getTarget_from_append:
  "getTarget_from m i (xs @ ys) taskID =
     (case getTarget_from m i xs taskID of
        Some r \<Rightarrow> Some r
      | None \<Rightarrow> getTarget_from m (i + length xs) ys taskID)"
  by (induction xs arbitrary: i) (auto split: option.splits)

lemma getTarget_from_cong_TaskID:
  "(\<forall>a \<in> set xs. TaskID (m' a) = TaskID (m a)) \<Longrightarrow>
   getTarget_from m' i xs taskID = getTarget_from m i xs taskID"
  by (induction xs arbitrary: i) auto

text \<open>
  After a successful \<open>upsertTarget\<close>, the registry finds, under the target's \<open>AppID\<close>
  and task id, a target that carries the data of the one given.
\<close>

lemma upsertTarget_then_getTarget:
  assumes "upsertTarget us target = (None, us')"
  shows "\<exists>a. getTarget us' (AppID (mem us target)) (TaskID (mem us target)) = Some a
    \<and> TaskID (mem us' a) = TaskID (mem us target)
    \<and> VersionID (mem us' a) = VersionID (mem us target)
    \<and> AppVersion (mem us' a) = AppVersion (mem us target)
    \<and> TaskIP (mem us' a) = TaskIP (mem us target)
    \<and> TaskPort (mem us' a) = TaskPort (mem us target)
    \<and> Weight (mem us' a) = Weight (mem us target)"
proof (cases "getUpstreamByID us (AppID (mem us target))")
  case None
  with assms have no_alias: "getUpstreamByAlias us (AppAlias (mem us target)) = None"
    by (auto simp: upsertTarget_def Let_def split: option.splits)
  let ?nu = "(newUpstream (AppID (mem us target)) (AppAlias (mem us target)))
               \<lparr>Targets := [target]\<rparr>"
  from assms None no_alias have us': "us' = us\<lparr>Upstreams := Upstreams us @ [?nu]\<rparr>"
    by (simp add: upsertTarget_def Let_def)
  from None have "getUpstreamByID us' (AppID (mem us target))
                  = Some (length (Upstreams us), ?nu)"
    by (simp add: us' getUpstreamByID_def getUpstreamByID_from_append newUpstream_def)
  then have "getTarget us' (AppID (mem us target)) (TaskID (mem us target)) = Some target"
    by (simp add: getTarget_def Upstream_getTarget_def us')
  then show ?thesis
    by (simp add: us')
next
  case (Some iu)
  obtain i u where "iu = (i, u)" by (cases iu)
  with Some have u: "getUpstreamByID us (AppID (mem us target)) = Some (i, u)" by simp
  show ?thesis
  proof (cases "Upstream_getTarget (mem us) u (TaskID (mem us target))")
    case None
    let ?u' = "u\<lparr>Targets := Targets u @ [target]\<rparr>"
    from assms u None have us': "us' = us\<lparr>Upstreams := (Upstreams us)[i := ?u']\<rparr>"
      by (simp add: upsertTarget_def Let_def)
    from getUpstreamByID_Some(3) [OF u] have "Upstream_AppID ?u' = AppID (mem us target)"
      by simp
    from getUpstreamByID_update [OF u this]
    have "getUpstreamByID us' (AppID (mem us target)) = Some (i, ?u')"
      by (simp add: us')
    moreover from None
    have "Upstream_getTarget (mem us') ?u' (TaskID (mem us target))
          = Some (length (Targets u), target)"
      by (simp add: Upstream_getTarget_def getTarget_from_append us')
    ultimately
    have "getTarget us' (AppID (mem us target)) (TaskID (mem us target)) = Some target"
      by (simp add: getTarget_def)
    then show ?thesis
      by (simp add: us')
  next
    case (Some jt)
    obtain j t where "jt = (j, t)" by (cases jt)
    with Some have t: "Upstream_getTarget (mem us) u (TaskID (mem us target)) = Some (j, t)"
      by simp
    let ?m' = "(mem us)(t := (mem us t)
                 \<lparr>VersionID := VersionID (mem us target),
                  AppVersion := AppVersion (mem us target),
                  TaskIP := TaskIP (mem us target),
                  TaskPort := TaskPort (mem us target),
                  Weight := Weight (mem us target)\<rparr>)"
    from assms u t have us': "us' = us\<lparr>mem := ?m'\<rparr>"
      by (simp add: upsertTarget_def Let_def)
    have u': "getUpstreamByID us' (AppID (mem us target)) = Some (i, u)"
      using u by (simp add: us' getUpstreamByID_def)
    have "\<forall>a \<in> set (Targets u). TaskID (?m' a) = TaskID (mem us a)"
      by simp
    from getTarget_from_cong_TaskID [where m' = ?m' and m = "mem us", OF this]
    have "getTarget_from ?m' 0 (Targets u) (TaskID (mem us target))
          = getTarget_from (mem us) 0 (Targets u) (TaskID (mem us target))" .
    moreover have "mem us' = ?m'"
      by (simp add: us')
    ultimately
    have "Upstream_getTarget (mem us') u (TaskID (mem us target)) = Some (j, t)"
      using t by (simp only: Upstream_getTarget_def)
    with u' have "getTarget us' (AppID (mem us target)) (TaskID (mem us target)) = Some t"
      by (simp add: getTarget_def)
    moreover from Upstream_getTarget_Some(3) [OF t]
    have "TaskID (mem us' t) = TaskID (mem us target)"
      by (simp add: us')
    ultimately show ?thesis
      by (simp add: us')
  qed
qed

end
